theory Spec2Isabelle
  imports Main
begin

section \<open>The incremental search controller of the search bar\<close>

text \<open>
  The component \<open>SearchBar\<close> keeps five pieces of React state (\<open>search\<close>,
  \<open>suggestions\<close>, \<open>loading\<close>, \<open>showSuggestions\<close>, \<open>highlightedIndex\<close>) and two
  timer references.  Its handlers are embedded as functions on a record that holds this
  state together with the part of the environment the handlers act on: the query
  parameters of the address, the table of armed timers, the clock, the log of
  \<open>router.push\<close> calls and the log of calls to the suggestion service.

  A JavaScript string is a \<open>string\<close> whose elements stand for its code units (here the
  code units below 256), so \<open>length\<close> is the \<open>.length\<close> of the source.
\<close>

subsection \<open>Strings\<close>

text \<open>\<open>String.prototype.trim\<close> removes white space and line terminators at both ends;
  below code unit 256 these are TAB, LF, VT, FF, CR, SPACE and NBSP.\<close>

definition is_white_space :: "char \<Rightarrow> bool" where
  "is_white_space c = (of_char c \<in> {9, 10, 11, 12, 13, 32, 160 :: nat})"

definition trim :: "string \<Rightarrow> string" where
  "trim v = rev (dropWhile is_white_space (rev (dropWhile is_white_space v)))"

text \<open>\<open>String.prototype.toLowerCase\<close> on the code units below 256: the letters A to Z
  and the Latin-1 capitals (all of 192 to 222 but the multiplication sign 215).\<close>

definition lower_char :: "char \<Rightarrow> char" where
  "lower_char c =
     (let n = (of_char c :: nat)
      in if (65 \<le> n \<and> n \<le> 90) \<or> (192 \<le> n \<and> n \<le> 222 \<and> n \<noteq> 215)
         then char_of (n + 32) else c)"

definition toLowerCase :: "string \<Rightarrow> string" where
  "toLowerCase v = map lower_char v"

subsection \<open>Data model\<close>

record suggestion =
  sid :: string
  title :: string
  category :: "string option"

datatype error = TypeError | SyntaxError | ServiceError

text \<open>\<open>URLSearchParams\<close>: an ordered list of name/value pairs.  \<open>get\<close> reads the first
  value of a name, \<open>set\<close> overwrites the first pair of the name and drops the others (or
  appends a pair), \<open>delete\<close> drops every pair of the name.  The source copies the
  parameters through their serialisation (\<open>new URLSearchParams(searchParams.toString())\<close>)
  and navigates to the serialisation of the result; the list of pairs stands for both.\<close>

type_synonym params = "(string \<times> string) list"

definition params_get :: "string \<Rightarrow> params \<Rightarrow> string option" where
  "params_get name ps = map_of ps name"

definition params_delete :: "string \<Rightarrow> params \<Rightarrow> params" where
  "params_delete name ps = filter (\<lambda>p. fst p \<noteq> name) ps"

fun params_set :: "string \<Rightarrow> string \<Rightarrow> params \<Rightarrow> params" where
  "params_set name v [] = [(name, v)]"
| "params_set name v (p # ps) =
     (if fst p = name then (name, v) # params_delete name ps
      else p # params_set name v ps)"

text \<open>An armed timer: its id, the time it is due, and the two variables its callback
  closes over (the only \<open>setTimeout\<close> of the component is the one in \<open>updateURL\<close>).\<close>

record timer =
  tid :: nat
  due :: nat
  cb_searchTerm :: string
  cb_searchParams :: params

record state =
  search :: string
  suggestions :: "suggestion list"
  loading :: bool
  showSuggestions :: bool
  highlightedIndex :: int
  searchTimeoutRef :: "nat option"
  urlUpdateTimeoutRef :: "nat option"
  searchParams :: params
  now :: nat
  timers :: "timer list"
  nextTimerId :: nat
  navigations :: "params list"
  serviceCalls :: "string list"

subsection \<open>Environment: router and timers\<close>

text \<open>\<open>router.push\<close>: the navigation is logged, and the address it leads to is what
  \<open>useSearchParams\<close> gives from then on.\<close>

definition router_push :: "params \<Rightarrow> state \<Rightarrow> state" where
  "router_push ps s = s\<lparr>navigations := navigations s @ [ps], searchParams := ps\<rparr>"

definition clearTimeout :: "nat \<Rightarrow> state \<Rightarrow> state" where
  "clearTimeout i s = s\<lparr>timers := filter (\<lambda>t. tid t \<noteq> i) (timers s)\<rparr>"

definition setTimeout :: "string \<Rightarrow> params \<Rightarrow> nat \<Rightarrow> state \<Rightarrow> nat \<times> state" where
  "setTimeout searchTerm sp delay s =
     (nextTimerId s,
      s\<lparr>timers := timers s @
            [\<lparr>tid = nextTimerId s, due = now s + delay,
              cb_searchTerm = searchTerm, cb_searchParams = sp\<rparr>],
        nextTimerId := nextTimerId s + 1\<rparr>)"

subsection \<open>URL Sync Scheduler: \<open>updateURL\<close>\<close>

text \<open>The callback handed to \<open>setTimeout\<close> (source lines 104 to 113).\<close>

definition updateURL_callback :: "string \<Rightarrow> params \<Rightarrow> state \<Rightarrow> state" where
  "updateURL_callback searchTerm sp s =
     (let params = sp;
          params = (if trim searchTerm \<noteq> [] then params_set ''search'' searchTerm params
                    else params_delete ''search'' params);
          params = params_delete ''page'' params
      in router_push params s)"

definition updateURL :: "string \<Rightarrow> state \<Rightarrow> state" where
  "updateURL searchTerm s =
     (let s1 = (case urlUpdateTimeoutRef s of Some i \<Rightarrow> clearTimeout i s | None \<Rightarrow> s);
          (i, s2) = setTimeout searchTerm (searchParams s1) 500 s1
      in s2\<lparr>urlUpdateTimeoutRef := Some i\<rparr>)"

text \<open>The event loop lets \<open>d\<close> time units pass: every timer due by then is taken from
  the table and its callback runs, earliest first.\<close>

definition fire_timer :: "timer \<Rightarrow> state \<Rightarrow> state" where
  "fire_timer t s = updateURL_callback (cb_searchTerm t) (cb_searchParams t) s"

definition elapse :: "nat \<Rightarrow> state \<Rightarrow> state" where
  "elapse d s =
     (let t1 = now s + d;
          ready = filter (\<lambda>t. due t \<le> t1) (timers s);
          later = filter (\<lambda>t. \<not> due t \<le> t1) (timers s)
      in fold fire_timer (sort_key due ready) (s\<lparr>now := t1, timers := later\<rparr>))"

subsection \<open>Suggestion Fetcher: \<open>fetchSuggestions\<close>\<close>

definition fetch_guard :: "string \<Rightarrow> bool" where
  "fetch_guard v = (trim v = [] \<or> length v < 3)"

text \<open>The part of the async function that runs inside the caller, up to the
  \<open>await\<close>.\<close>

definition fetchSuggestions_sync :: "string \<Rightarrow> state \<Rightarrow> state" where
  "fetchSuggestions_sync v s =
     (if fetch_guard v then s\<lparr>suggestions := [], showSuggestions := False\<rparr>
      else s\<lparr>loading := True, serviceCalls := serviceCalls s @ [v]\<rparr>)"

text \<open>The rest of it, run when the service call settles: \<open>try\<close>, \<open>catch\<close> (which only
  logs to the console) and \<open>finally\<close>.  The result is what the promise of the async
  function settles to.\<close>

definition fetchSuggestions_settle :: "error + suggestion list \<Rightarrow> state \<Rightarrow> error + state" where
  "fetchSuggestions_settle outcome s =
     (let tried = (case outcome of
                     Inr results \<Rightarrow> Inr (s\<lparr>suggestions := results, showSuggestions := True\<rparr>)
                   | Inl e \<Rightarrow> Inl e);
          caught = (case tried of
                      Inr s1 \<Rightarrow> Inr s1
                    | Inl e \<Rightarrow> Inr (s\<lparr>suggestions := []\<rparr>))
      in map_sum id (\<lambda>s2. s2\<lparr>loading := False\<rparr>) caught)"

text \<open>The whole function against a service whose answer is known.\<close>

definition fetchSuggestions ::
  "(string \<Rightarrow> error + suggestion list) \<Rightarrow> string \<Rightarrow> state \<Rightarrow> error + state" where
  "fetchSuggestions getRecipeSuggestions v s =
     (if fetch_guard v then Inr (fetchSuggestions_sync v s)
      else fetchSuggestions_settle (getRecipeSuggestions v) (fetchSuggestions_sync v s))"

subsection \<open>Input Controller\<close>

text \<open>\<open>useState\<close> and \<open>useRef\<close> at mount, in a fresh environment whose address has
  the query parameters \<open>sp\<close>.\<close>

definition mount :: "params \<Rightarrow> state" where
  "mount sp =
     \<lparr>search = (case params_get ''search'' sp of
                   Some v \<Rightarrow> (if v \<noteq> [] then v else [])
                 | None \<Rightarrow> []),
      suggestions = [], loading = False, showSuggestions = False,
      highlightedIndex = - 1,
      searchTimeoutRef = None, urlUpdateTimeoutRef = None,
      searchParams = sp, now = 0, timers = [], nextTimerId = 1,
      navigations = [], serviceCalls = []\<rparr>"

definition handleInputChange :: "string \<Rightarrow> state \<Rightarrow> state" where
  "handleInputChange v s =
     (let s1 = s\<lparr>search := v, highlightedIndex := - 1\<rparr>;
          s2 = (case searchTimeoutRef s1 of Some i \<Rightarrow> clearTimeout i s1 | None \<Rightarrow> s1);
          s3 = (if length v \<ge> 2
                then fetchSuggestions_sync v (s2\<lparr>showSuggestions := True\<rparr>)
                else s2\<lparr>showSuggestions := False, suggestions := []\<rparr>)
      in updateURL v s3)"

definition handleSuggestionClick :: "suggestion \<Rightarrow> state \<Rightarrow> state" where
  "handleSuggestionClick sg s =
     (let searchTerm = title sg;
          s1 = s\<lparr>search := searchTerm, showSuggestions := False\<rparr>;
          s2 = (case urlUpdateTimeoutRef s1 of Some i \<Rightarrow> clearTimeout i s1 | None \<Rightarrow> s1);
          params = searchParams s2;
          params = params_set ''search'' searchTerm params;
          params = params_delete ''page'' params
      in router_push params s2)"

text \<open>\<open>handleKeyDown\<close> gives the new state and whether \<open>preventDefault\<close> was called.
  \<open>suggestions[highlightedIndex]\<close> out of range is \<open>undefined\<close>, and reading its
  \<open>title\<close> throws.\<close>

definition handleKeyDown :: "string \<Rightarrow> state \<Rightarrow> error + bool \<times> state" where
  "handleKeyDown key s =
     (if \<not> showSuggestions s then Inr (False, s)
      else if key = ''ArrowDown'' then
        Inr (True, s\<lparr>highlightedIndex :=
               (if highlightedIndex s < int (length (suggestions s)) - 1
                then highlightedIndex s + 1 else highlightedIndex s)\<rparr>)
      else if key = ''ArrowUp'' then
        Inr (True, s\<lparr>highlightedIndex :=
               (if highlightedIndex s > 0 then highlightedIndex s - 1 else - 1)\<rparr>)
      else if key = ''Enter'' then
        (if highlightedIndex s \<ge> 0 then
           (if nat (highlightedIndex s) < length (suggestions s)
            then Inr (True, handleSuggestionClick (suggestions s ! nat (highlightedIndex s)) s)
            else Inl TypeError)
         else Inr (True, updateURL (search s) (s\<lparr>showSuggestions := False\<rparr>)))
      else if key = ''Escape'' then Inr (False, s\<lparr>showSuggestions := False\<rparr>)
      else Inr (False, s))"

text \<open>\<open>resetSearch\<close>; the call of the property \<open>onToggle\<close> acts on the parent only.\<close>

definition resetSearch :: "state \<Rightarrow> state" where
  "resetSearch s =
     (let s1 = s\<lparr>search := [], suggestions := [], showSuggestions := False,
                 highlightedIndex := - 1\<rparr>;
          s2 = (case urlUpdateTimeoutRef s1 of Some i \<Rightarrow> clearTimeout i s1 | None \<Rightarrow> s1);
          params = searchParams s2;
          params = params_delete ''search'' params;
          params = params_delete ''page'' params
      in router_push params s2)"

subsection \<open>What is rendered, and the events of the control\<close>

definition panel_rendered :: "state \<Rightarrow> bool" where
  "panel_rendered s = (showSuggestions s \<and> length (search s) \<ge> 3)"

definition row_rendered :: "nat \<Rightarrow> state \<Rightarrow> bool" where
  "row_rendered i s = (panel_rendered s \<and> \<not> loading s \<and> i < length (suggestions s))"

datatype event =
    InputChange string
  | KeyDown string
  | RowClick nat
  | RowMouseEnter nat
  | ClearClick
  | PointerDownOutside
  | FetchSettled "error + suggestion list"
  | Elapse nat

text \<open>One event of the single-threaded event loop.  An event on an element that is not
  rendered cannot be delivered; a handler that throws, or a promise that is never
  observed, leaves the state as it was.\<close>

fun step :: "event \<Rightarrow> state \<Rightarrow> state" where
  "step (InputChange v) s = handleInputChange v s"
| "step (KeyDown key) s = (case handleKeyDown key s of Inr (_, s') \<Rightarrow> s' | Inl _ \<Rightarrow> s)"
| "step (RowClick i) s =
     (if row_rendered i s then handleSuggestionClick (suggestions s ! i) s else s)"
| "step (RowMouseEnter i) s =
     (if row_rendered i s then s\<lparr>highlightedIndex := int i\<rparr> else s)"
| "step ClearClick s = (if search s \<noteq> [] then resetSearch s else s)"
| "step PointerDownOutside s =
     (if panel_rendered s then s\<lparr>showSuggestions := False\<rparr> else s)"
| "step (FetchSettled outcome) s =
     (case fetchSuggestions_settle outcome s of Inr s' \<Rightarrow> s' | Inl _ \<Rightarrow> s)"
| "step (Elapse d) s = elapse d s"

definition run :: "event list \<Rightarrow> state \<Rightarrow> state" where
  "run es s = fold step es s"

subsection \<open>Match Highlighter: \<open>highlightMatch\<close>\<close>

text \<open>What \<open>highlightMatch\<close> returns: the text itself, or a fragment whose children
  are marked spans and plain strings.\<close>

datatype piece = Span string | Plain string

datatype node = Text string | Fragment "piece list"

text \<open>The callback of \<open>parts.map\<close>, and the map itself.  A part is \<open>undefined\<close>
  (\<open>None\<close>) where a capturing group of the pattern took no part in a match;
  \<open>toLowerCase\<close> of it throws.\<close>

definition mark_part :: "string \<Rightarrow> string \<Rightarrow> piece" where
  "mark_part searchTerm part =
     (if toLowerCase part = toLowerCase searchTerm then Span part else Plain part)"

fun mark_parts :: "string \<Rightarrow> string option list \<Rightarrow> error + piece list" where
  "mark_parts searchTerm [] = Inr []"
| "mark_parts searchTerm (None # parts) = Inl TypeError"
| "mark_parts searchTerm (Some part # parts) =
     (case mark_parts searchTerm parts of
        Inl e \<Rightarrow> Inl e
      | Inr ps \<Rightarrow> Inr (mark_part searchTerm part # ps))"

text \<open>The regular-expression engine belongs to the platform, so the function takes it
  as two parameters: the constructor \<open>new RegExp(pattern, flags)\<close>, which may throw,
  and \<open>text.split(re)\<close>.  First the body of the \<open>try\<close> block, then the function with
  its guard and its \<open>catch\<close>.\<close>

definition highlightMatch_try ::
  "(string \<Rightarrow> string \<Rightarrow> error + 'r) \<Rightarrow> (string \<Rightarrow> 'r \<Rightarrow> string option list) \<Rightarrow>
   string \<Rightarrow> string \<Rightarrow> error + node" where
  "highlightMatch_try RegExp split text searchTerm =
     (case RegExp (''('' @ searchTerm @ '')'') ''gi'' of
        Inl e \<Rightarrow> Inl e
      | Inr re \<Rightarrow> map_sum id Fragment (mark_parts searchTerm (split text re)))"

definition highlightMatch ::
  "(string \<Rightarrow> string \<Rightarrow> error + 'r) \<Rightarrow> (string \<Rightarrow> 'r \<Rightarrow> string option list) \<Rightarrow>
   string \<Rightarrow> string \<Rightarrow> error + node" where
  "highlightMatch RegExp split text searchTerm =
     (if searchTerm = [] then Inr (Text text)
      else (case highlightMatch_try RegExp split text searchTerm of
              Inr n \<Rightarrow> Inr n
            | Inl e \<Rightarrow> Inr (Text text)))"

text \<open>An engine for running examples.  It accepts one group around literal text only
  and refuses every other pattern (JavaScript accepts more patterns, and refuses
  \<open>(()\<close> as this one does); it splits at the occurrences of the literal, upper and
  lower case alike, and keeps each occurrence as the captured part.\<close>

definition syntax_character :: "char \<Rightarrow> bool" where
  "syntax_character c = (c \<in> set (CHR 0x5C # ''^$.*+?()[]{}|/''))"

definition literal_RegExp :: "string \<Rightarrow> string \<Rightarrow> error + string" where
  "literal_RegExp pattern flags =
     (if 2 \<le> length pattern \<and> hd pattern = CHR ''('' \<and> last pattern = CHR '')''
         \<and> list_all (\<lambda>c. \<not> syntax_character c) (butlast (tl pattern))
      then Inr (butlast (tl pattern)) else Inl SyntaxError)"

function literal_split_from :: "string \<Rightarrow> string \<Rightarrow> string \<Rightarrow> string option list" where
  "literal_split_from lit acc [] = [Some (rev acc)]"
| "literal_split_from lit acc (c # cs) =
     (if lit \<noteq> [] \<and> length lit \<le> length (c # cs)
         \<and> toLowerCase (take (length lit) (c # cs)) = toLowerCase lit
      then Some (rev acc) # Some (take (length lit) (c # cs))
             # literal_split_from lit [] (drop (length lit) (c # cs))
      else literal_split_from lit (c # acc) cs)"
  by pat_completeness auto
termination
  by (relation "measure (\<lambda>(lit, acc, text). length text)") auto

definition literal_split :: "string \<Rightarrow> string \<Rightarrow> string option list" where
  "literal_split text lit = literal_split_from lit [] text"

subsection \<open>Predicates and runs used in the properties\<close>

text \<open>Every armed timer is the one \<open>urlUpdateTimeoutRef\<close> refers to.\<close>

definition timers_referenced :: "state \<Rightarrow> bool" where
  "timers_referenced s = list_all (\<lambda>t. urlUpdateTimeoutRef s = Some (tid t)) (timers s)"

text \<open>\<open>highlightedIndex\<close> is \<open>-1\<close> or a position of the current list.\<close>

definition index_in_range :: "state \<Rightarrow> bool" where
  "index_in_range s =
     (- 1 \<le> highlightedIndex s \<and> highlightedIndex s \<le> int (length (suggestions s)) - 1)"

fun is_FetchSettled :: "event \<Rightarrow> bool" where
  "is_FetchSettled (FetchSettled outcome) = True"
| "is_FetchSettled e = False"

text \<open>A burst of calls of \<open>updateURL\<close>: before each call, \<open>gap\<close> time units pass.\<close>

fun schedule_burst :: "(nat \<times> string) list \<Rightarrow> state \<Rightarrow> state" where
  "schedule_burst [] s = s"
| "schedule_burst ((gap, q) # calls) s = schedule_burst calls (updateURL q (elapse gap s))"

text \<open>Two suggestions for the concrete runs.\<close>

definition pizza_dough :: suggestion where
  "pizza_dough = \<lparr>sid = ''r1'', title = ''Pizza Dough'', category = None\<rparr>"

definition pizza_sauce :: suggestion where
  "pizza_sauce = \<lparr>sid = ''r2'', title = ''Pizza Sauce'', category = Some ''Sauces''\<rparr>"

text \<open>The text of a child of the fragment, and the children that are not marked.\<close>

fun piece_text :: "piece \<Rightarrow> string" where
  "piece_text (Span part) = part"
| "piece_text (Plain part) = part"

fun plain_pieces :: "piece list \<Rightarrow> string list" where
  "plain_pieces [] = []"
| "plain_pieces (Span part # ps) = plain_pieces ps"
| "plain_pieces (Plain part # ps) = part # plain_pieces ps"

text \<open>A run with one fetch in flight at a time: \<open>piz\<close> is typed and answered with two
  suggestions, \<open>pizz\<close> is typed, the user moves down to the second suggestion, and
  the answer for \<open>pizz\<close> arrives with one suggestion.\<close>

definition stale_trace :: "event list" where
  "stale_trace =
     [InputChange ''piz'', FetchSettled (Inr [pizza_dough, pizza_sauce]),
      InputChange ''pizz'', KeyDown ''ArrowDown'', KeyDown ''ArrowDown'',
      FetchSettled (Inr [pizza_dough])]"

text \<open>The state after typing \<open>piz\<close> on page 3 and receiving two suggestions.\<close>

definition loaded :: state where
  "loaded =
     run [InputChange ''piz'', FetchSettled (Inr [pizza_dough, pizza_sauce])]
       (mount [(''page'', ''3'')])"

text \<open>At most one timer is armed, and its callback closed over the parameters that the
  address has now.\<close>

definition timer_current :: "state \<Rightarrow> bool" where
  "timer_current s =
     (length (timers s) \<le> 1 \<and>
      list_all (\<lambda>t. cb_searchParams t = searchParams s) (timers s))"

section \<open>Properties\<close>

subsection \<open>Query parameters\<close>

lemma params_get_delete:
  "params_get n (params_delete m ps) = (if n = m then None else params_get n ps)"
  by (induction ps) (auto simp: params_get_def params_delete_def)

lemma params_get_set_same: "params_get n (params_set n v ps) = Some v"
  by (induction ps) (auto simp: params_get_def)

subsection \<open>Timers\<close>

lemma timers_updateURL:
  "timers_referenced s \<Longrightarrow>
   timers (updateURL q s) =
     [\<lparr>tid = nextTimerId s, due = now s + 500, cb_searchTerm = q,
       cb_searchParams = searchParams s\<rparr>]"
  by (cases "urlUpdateTimeoutRef s")
     (auto simp: updateURL_def setTimeout_def clearTimeout_def timers_referenced_def
                 list_all_iff filter_empty_conv)

lemma updateURL_frame:
  "navigations (updateURL q s) = navigations s"
  "now (updateURL q s) = now s"
  "searchParams (updateURL q s) = searchParams s"
  "urlUpdateTimeoutRef (updateURL q s) = Some (nextTimerId s)"
  by (auto simp: updateURL_def setTimeout_def clearTimeout_def split: option.splits)

lemma timers_referenced_updateURL:
  "timers_referenced s \<Longrightarrow> timers_referenced (updateURL q s)"
  by (simp add: timers_referenced_def[of "updateURL q s"] timers_updateURL updateURL_frame)

lemma elapse_none_due:
  "list_all (\<lambda>t. now s + d < due t) (timers s) \<Longrightarrow> elapse d s = s\<lparr>now := now s + d\<rparr>"
  by (simp add: elapse_def list_all_iff filter_empty_conv Let_def not_le[symmetric]
                filter_id_conv)

lemma elapse_single_due:
  "timers s = [t] \<Longrightarrow> due t \<le> now s + d \<Longrightarrow>
   elapse d s = fire_timer t (s\<lparr>now := now s + d, timers := []\<rparr>)"
  by (simp add: elapse_def Let_def)

lemma elapse_early_updateURL:
  assumes "timers_referenced s" and "d < 500"
  shows "elapse d (updateURL q s) = (updateURL q s)\<lparr>now := now s + d\<rparr>"
  using assms elapse_none_due[of "updateURL q s" d]
  by (simp add: timers_updateURL updateURL_frame)

lemma elapse_late_updateURL:
  assumes "timers_referenced s" and "500 \<le> d"
  shows "elapse d (updateURL q s) =
         updateURL_callback q (searchParams s)
           ((updateURL q s)\<lparr>now := now s + d, timers := []\<rparr>)"
proof -
  let ?t = "\<lparr>tid = nextTimerId s, due = now s + 500, cb_searchTerm = q,
             cb_searchParams = searchParams s\<rparr>"
  have armed: "timers (updateURL q s) = [?t]"
    using assms(1) by (rule timers_updateURL)
  have "due ?t \<le> now (updateURL q s) + d"
    using assms(2) by (simp add: updateURL_frame)
  from elapse_single_due[OF armed this] show ?thesis
    by (simp add: updateURL_frame fire_timer_def)
qed

lemma navigations_callback:
  "navigations (updateURL_callback q sp s) =
   navigations s @ [params_delete ''page''
                      (if trim q \<noteq> [] then params_set ''search'' q sp
                       else params_delete ''search'' sp)]"
  by (simp add: updateURL_callback_def router_push_def Let_def)

lemma timers_callback: "timers (updateURL_callback q sp s) = timers s"
  by (simp add: updateURL_callback_def router_push_def Let_def)

lemma burst_collapses:
  "timers_referenced s \<Longrightarrow> list_all (\<lambda>c. fst c < 500) calls \<Longrightarrow>
   \<exists>s'. timers_referenced s' \<and> navigations s' = navigations s
        \<and> searchParams s' = searchParams s
        \<and> schedule_burst calls (updateURL q0 s) = updateURL (last (q0 # map snd calls)) s'"
proof (induction calls arbitrary: s q0)
  case Nil
  then show ?case by auto
next
  case (Cons c calls)
  obtain gap q where c: "c = (gap, q)" by (cases c)
  let ?s1 = "elapse gap (updateURL q0 s)"
  from Cons.prems c have gap: "gap < 500" and rest: "list_all (\<lambda>c. fst c < 500) calls"
    by auto
  have eq: "?s1 = (updateURL q0 s)\<lparr>now := now s + gap\<rparr>"
    using elapse_early_updateURL[OF Cons.prems(1) gap] .
  have ref: "timers_referenced ?s1"
    using timers_referenced_updateURL[OF Cons.prems(1), of q0]
    by (simp add: eq timers_referenced_def)
  have fr: "navigations ?s1 = navigations s" "searchParams ?s1 = searchParams s"
    by (simp_all add: eq updateURL_frame)
  from Cons.IH[OF ref rest, of q] obtain s' where
    "timers_referenced s'" "navigations s' = navigations ?s1"
    "searchParams s' = searchParams ?s1"
    "schedule_burst calls (updateURL q ?s1) = updateURL (last (q # map snd calls)) s'"
    by blast
  then show ?case using fr c by auto
qed

lemma timers_referenced_mount: "timers_referenced (mount sp)"
  by (simp add: timers_referenced_def mount_def)

subsection \<open>URL Sync Scheduler\<close>

text \<open>
  Claim C2, as the code has it.  After \<open>updateURL q\<close>, in a state whose armed timers
  are the one the reference holds, no navigation happens before 500 time units have
  passed; once they have, the timer fires and there is exactly one navigation more.  Its
  parameters are those of the address with \<open>search\<close> set to \<open>q\<close> itself, not to
  \<open>trim q\<close>, when \<open>trim q\<close> is not empty, and without \<open>search\<close> otherwise; \<open>page\<close> is
  removed in either case.
\<close>

theorem updateURL_timer_fires:
  assumes "timers_referenced s"
  shows "(d < 500 \<longrightarrow> navigations (elapse d (updateURL q s)) = navigations s) \<and>
         (500 \<le> d \<longrightarrow>
            navigations (elapse d (updateURL q s)) =
              navigations s @ [params_delete ''page''
                                 (if trim q \<noteq> [] then params_set ''search'' q (searchParams s)
                                  else params_delete ''search'' (searchParams s))]
            \<and> timers (elapse d (updateURL q s)) = []) \<and>
         params_get ''search''
            (params_delete ''page''
               (if trim q \<noteq> [] then params_set ''search'' q (searchParams s)
                else params_delete ''search'' (searchParams s)))
           = (if trim q \<noteq> [] then Some q else None) \<and>
         params_get ''page''
            (params_delete ''page''
               (if trim q \<noteq> [] then params_set ''search'' q (searchParams s)
                else params_delete ''search'' (searchParams s))) = None"
proof -
  have early: "d < 500 \<longrightarrow> navigations (elapse d (updateURL q s)) = navigations s"
    using assms by (simp add: elapse_early_updateURL updateURL_frame)
  have late: "500 \<le> d \<longrightarrow>
            navigations (elapse d (updateURL q s)) =
              navigations s @ [params_delete ''page''
                                 (if trim q \<noteq> [] then params_set ''search'' q (searchParams s)
                                  else params_delete ''search'' (searchParams s))]
            \<and> timers (elapse d (updateURL q s)) = []"
    using assms
    by (simp add: elapse_late_updateURL navigations_callback timers_callback updateURL_frame)
  have srch: "params_get ''search''
            (params_delete ''page''
               (if trim q \<noteq> [] then params_set ''search'' q (searchParams s)
                else params_delete ''search'' (searchParams s)))
           = (if trim q \<noteq> [] then Some q else None)"
    by (simp add: params_get_delete params_get_set_same)
  have pg: "params_get ''page''
            (params_delete ''page''
               (if trim q \<noteq> [] then params_set ''search'' q (searchParams s)
                else params_delete ''search'' (searchParams s))) = None"
    by (simp add: params_get_delete)
  from early late srch pg show ?thesis by blast
qed

text \<open>At mount on page 2, the query \<open>piz\<close>: nothing after 499 time units, one
  navigation to \<open>search=piz\<close> after 500.\<close>

theorem updateURL_timer_fires_witness:
  "timers_referenced (mount [(''page'', ''2'')]) \<and>
   navigations (elapse 499 (updateURL ''piz'' (mount [(''page'', ''2'')]))) = [] \<and>
   navigations (elapse 500 (updateURL ''piz'' (mount [(''page'', ''2'')])))
     = [[(''search'', ''piz'')]]"
  using updateURL_timer_fires[of "mount [(''page'', ''2'')]" 499 "''piz''"]
        updateURL_timer_fires[of "mount [(''page'', ''2'')]" 500 "''piz''"]
  by (simp add: timers_referenced_def mount_def trim_def is_white_space_def params_delete_def)

text \<open>The query \<open>" piz"\<close> with a leading space: \<open>search\<close> is set to the query with its
  space, which is not \<open>trim\<close> of it.\<close>

theorem updateURL_sets_trimmed_counterexample:
  "trim '' piz'' = ''piz'' \<and>
   params_get ''search'' (last (navigations (elapse 500 (updateURL '' piz'' (mount [])))))
     = Some '' piz'' \<and>
   params_get ''search'' (last (navigations (elapse 500 (updateURL '' piz'' (mount [])))))
     \<noteq> Some (trim '' piz'')"
  by (simp add: elapse_late_updateURL navigations_callback timers_referenced_mount trim_def
                is_white_space_def params_get_delete params_get_set_same)

text \<open>
  Claim C4.  A burst of calls of \<open>updateURL\<close>, each less than 500 time units after the
  one before, causes no navigation while it lasts, and exactly one once 500 time units
  have passed after its last call: the navigation of the last query of the burst.
\<close>

theorem debounce_last_write_wins:
  assumes "timers_referenced s" and "list_all (\<lambda>c. fst c < 500) calls" and "500 \<le> w"
  shows "navigations (schedule_burst calls (updateURL q0 s)) = navigations s \<and>
         navigations (elapse w (schedule_burst calls (updateURL q0 s))) =
           navigations s @
             [params_delete ''page''
                (if trim (last (q0 # map snd calls)) \<noteq> []
                 then params_set ''search'' (last (q0 # map snd calls)) (searchParams s)
                 else params_delete ''search'' (searchParams s))]"
proof -
  from burst_collapses[OF assms(1,2), of q0] obtain s' where
    s': "timers_referenced s'" "navigations s' = navigations s"
    "searchParams s' = searchParams s"
    "schedule_burst calls (updateURL q0 s) = updateURL (last (q0 # map snd calls)) s'"
    by blast
  show ?thesis
    using s' assms(3)
    by (simp add: elapse_late_updateURL navigations_callback updateURL_frame del: last.simps)
qed

text \<open>Typing \<open>p\<close>, \<open>pi\<close>, \<open>piz\<close> 100 time units apart: one navigation, to
  \<open>search=piz\<close>.\<close>

theorem debounce_last_write_wins_witness:
  "timers_referenced (mount []) \<and>
   list_all (\<lambda>c. fst c < 500) [(100 :: nat, ''pi''), (100, ''piz'')] \<and>
   navigations (schedule_burst [(100, ''pi''), (100, ''piz'')] (updateURL ''p'' (mount []))) = [] \<and>
   navigations (elapse 500 (schedule_burst [(100, ''pi''), (100, ''piz'')]
                              (updateURL ''p'' (mount []))))
     = [[(''search'', ''piz'')]]"
  using debounce_last_write_wins[of "mount []" "[(100, ''pi''), (100, ''piz'')]" 500 "''p''"]
  by (simp add: timers_referenced_def mount_def trim_def is_white_space_def params_delete_def)

subsection \<open>What the scheduler and the clock leave alone\<close>

lemma updateURL_ui:
  "search (updateURL q s) = search s"
  "suggestions (updateURL q s) = suggestions s"
  "loading (updateURL q s) = loading s"
  "showSuggestions (updateURL q s) = showSuggestions s"
  "highlightedIndex (updateURL q s) = highlightedIndex s"
  "serviceCalls (updateURL q s) = serviceCalls s"
  by (auto simp: updateURL_def setTimeout_def clearTimeout_def split: option.splits)

lemma fold_fire_timer_frame:
  "highlightedIndex (fold fire_timer ts s) = highlightedIndex s \<and>
   suggestions (fold fire_timer ts s) = suggestions s \<and>
   timers (fold fire_timer ts s) = timers s \<and>
   urlUpdateTimeoutRef (fold fire_timer ts s) = urlUpdateTimeoutRef s"
  by (induction ts arbitrary: s)
     (simp_all add: fire_timer_def updateURL_callback_def router_push_def Let_def)

lemma elapse_ui:
  "highlightedIndex (elapse d s) = highlightedIndex s"
  "suggestions (elapse d s) = suggestions s"
  by (simp_all add: elapse_def Let_def fold_fire_timer_frame)

lemma handleSuggestionClick_ui:
  "highlightedIndex (handleSuggestionClick sg s) = highlightedIndex s"
  "suggestions (handleSuggestionClick sg s) = suggestions s"
  by (auto simp: handleSuggestionClick_def Let_def router_push_def clearTimeout_def
           split: option.splits)

subsection \<open>Every reachable state has at most the referenced timer armed\<close>

lemma timers_after_clear:
  "timers_referenced s \<Longrightarrow>
   timers (case urlUpdateTimeoutRef s of Some i \<Rightarrow> clearTimeout i s | None \<Rightarrow> s) = []"
  by (cases "urlUpdateTimeoutRef s")
     (auto simp: timers_referenced_def clearTimeout_def list_all_iff filter_empty_conv)

lemma timers_referenced_handleSuggestionClick:
  "timers_referenced s \<Longrightarrow> timers_referenced (handleSuggestionClick sg s)"
  using timers_after_clear[of "s\<lparr>search := title sg, showSuggestions := False\<rparr>"]
  by (simp add: handleSuggestionClick_def Let_def router_push_def timers_referenced_def)

lemma timers_referenced_resetSearch:
  "timers_referenced s \<Longrightarrow> timers_referenced (resetSearch s)"
  using timers_after_clear[of "s\<lparr>search := [], suggestions := [], showSuggestions := False,
                                 highlightedIndex := - 1\<rparr>"]
  by (simp add: resetSearch_def Let_def router_push_def timers_referenced_def)

lemma timers_referenced_handleInputChange:
  "timers_referenced s \<Longrightarrow> timers_referenced (handleInputChange v s)"
  unfolding handleInputChange_def Let_def
  by (rule timers_referenced_updateURL)
     (auto simp: timers_referenced_def fetchSuggestions_sync_def clearTimeout_def list_all_iff
           split: option.splits)

lemma timers_referenced_KeyDown:
  "timers_referenced s \<Longrightarrow> timers_referenced (step (KeyDown key) s)"
  by (auto simp: handleKeyDown_def timers_referenced_handleSuggestionClick
                 timers_referenced_updateURL
                 timers_referenced_def[of "s\<lparr>showSuggestions := False\<rparr>"]
                 timers_referenced_def[of "s\<lparr>highlightedIndex := _\<rparr>"]
                 timers_referenced_def[of s])

lemma timers_referenced_elapse:
  "timers_referenced s \<Longrightarrow> timers_referenced (elapse d s)"
  by (simp add: timers_referenced_def elapse_def Let_def fold_fire_timer_frame list_all_iff)

lemma timers_referenced_step:
  "timers_referenced s \<Longrightarrow> timers_referenced (step e s)"
proof (cases e)
  case (KeyDown key)
  assume "timers_referenced s"
  then show ?thesis unfolding KeyDown by (rule timers_referenced_KeyDown)
next
  case (FetchSettled outcome)
  assume "timers_referenced s"
  then show ?thesis using FetchSettled
    by (auto simp: timers_referenced_def fetchSuggestions_settle_def split: sum.splits)
qed (auto simp: timers_referenced_handleInputChange timers_referenced_handleSuggestionClick
          timers_referenced_resetSearch timers_referenced_elapse
          timers_referenced_def[of "_\<lparr>highlightedIndex := _\<rparr>"]
          timers_referenced_def[of "_\<lparr>showSuggestions := _\<rparr>"]
          timers_referenced_def[of s])

lemma timers_referenced_reachable: "timers_referenced (run es (mount sp))"
proof -
  have "timers_referenced s \<Longrightarrow> timers_referenced (fold step es s)" for s
    by (induction es arbitrary: s) (simp_all add: timers_referenced_step)
  then show ?thesis by (simp add: run_def timers_referenced_mount)
qed

text \<open>So the parameters a timer closed over when it was armed are still those of the
  address when it fires.\<close>

lemma timer_current_updateURL:
  "timers_referenced s \<Longrightarrow> timer_current (updateURL q s)"
  by (simp add: timer_current_def timers_updateURL updateURL_frame)

lemma timer_current_no_timers: "timers s = [] \<Longrightarrow> timer_current s"
  by (simp add: timer_current_def)

lemma timers_handleSuggestionClick:
  "timers_referenced s \<Longrightarrow> timers (handleSuggestionClick sg s) = []"
  using timers_after_clear[of "s\<lparr>search := title sg, showSuggestions := False\<rparr>"]
  by (simp add: handleSuggestionClick_def Let_def router_push_def timers_referenced_def)

lemma timers_resetSearch:
  "timers_referenced s \<Longrightarrow> timers (resetSearch s) = []"
  using timers_after_clear[of "s\<lparr>search := [], suggestions := [], showSuggestions := False,
                                 highlightedIndex := - 1\<rparr>"]
  by (simp add: resetSearch_def Let_def router_push_def timers_referenced_def)

lemma timer_current_handleInputChange:
  "timers_referenced s \<Longrightarrow> timer_current (handleInputChange v s)"
  unfolding handleInputChange_def Let_def
  by (rule timer_current_updateURL)
     (auto simp: timers_referenced_def fetchSuggestions_sync_def clearTimeout_def list_all_iff
           split: option.splits)

lemma timer_current_elapse:
  assumes "timer_current s"
  shows "timer_current (elapse d s)"
proof (cases "timers s")
  case Nil
  then show ?thesis using assms by (simp add: elapse_def Let_def timer_current_def)
next
  case (Cons t ts)
  with assms have one: "timers s = [t]" and cur: "cb_searchParams t = searchParams s"
    by (simp_all add: timer_current_def)
  show ?thesis
  proof (cases "due t \<le> now s + d")
    case True
    from elapse_single_due[OF one True] show ?thesis
      by (simp add: timer_current_def fire_timer_def timers_callback)
  next
    case False
    then have "list_all (\<lambda>t. now s + d < due t) (timers s)" by (simp add: one)
    from elapse_none_due[OF this] show ?thesis using one cur
      by (simp add: timer_current_def)
  qed
qed

lemma timer_current_KeyDown:
  "timers_referenced s \<Longrightarrow> timer_current s \<Longrightarrow> timer_current (step (KeyDown key) s)"
  by (auto simp: handleKeyDown_def timer_current_updateURL
                 timers_handleSuggestionClick timer_current_no_timers
                 timers_referenced_def[of "s\<lparr>showSuggestions := False\<rparr>"]
                 timer_current_def[of "s\<lparr>showSuggestions := False\<rparr>"]
                 timer_current_def[of "s\<lparr>highlightedIndex := _\<rparr>"]
                 timers_referenced_def[of s] timer_current_def[of s])

lemma timer_current_step:
  "timers_referenced s \<Longrightarrow> timer_current s \<Longrightarrow> timer_current (step e s)"
proof (cases e)
  case (KeyDown key)
  assume "timers_referenced s" "timer_current s"
  then show ?thesis unfolding KeyDown by (rule timer_current_KeyDown)
next
  case (FetchSettled outcome)
  assume "timer_current s"
  then show ?thesis using FetchSettled
    by (auto simp: timer_current_def fetchSuggestions_settle_def split: sum.splits)
next
  case (Elapse d)
  assume "timer_current s"
  then show ?thesis using Elapse by (simp add: timer_current_elapse)
qed (auto simp: timer_current_handleInputChange timers_handleSuggestionClick
          timers_resetSearch timer_current_no_timers
          timer_current_def[of "_\<lparr>highlightedIndex := _\<rparr>"]
          timer_current_def[of "_\<lparr>showSuggestions := _\<rparr>"]
          timer_current_def[of s])

lemma timer_current_mount: "timer_current (mount sp)"
  by (simp add: timer_current_def mount_def)

lemma timer_current_reachable: "timer_current (run es (mount sp))"
proof -
  have "timers_referenced s \<Longrightarrow> timer_current s \<Longrightarrow>
        timers_referenced (fold step es s) \<and> timer_current (fold step es s)" for s
    by (induction es arbitrary: s) (simp_all add: timers_referenced_step timer_current_step)
  from this[OF timers_referenced_mount timer_current_mount] show ?thesis
    by (simp add: run_def)
qed

subsection \<open>The concrete runs\<close>

lemma loaded_state:
  "loaded =
     \<lparr>search = ''piz'', suggestions = [pizza_dough, pizza_sauce], loading = False,
      showSuggestions = True, highlightedIndex = - 1, searchTimeoutRef = None,
      urlUpdateTimeoutRef = Some 1, searchParams = [(''page'', ''3'')], now = 0,
      timers = [\<lparr>tid = 1, due = 500, cb_searchTerm = ''piz'',
                 cb_searchParams = [(''page'', ''3'')]\<rparr>],
      nextTimerId = 2, navigations = [], serviceCalls = [''piz'']\<rparr>"
  by code_simp

lemma stale_state:
  "run stale_trace (mount []) =
     \<lparr>search = ''pizz'', suggestions = [pizza_dough], loading = False,
      showSuggestions = True, highlightedIndex = 1, searchTimeoutRef = None,
      urlUpdateTimeoutRef = Some 2, searchParams = [], now = 0,
      timers = [\<lparr>tid = 2, due = 500, cb_searchTerm = ''pizz'', cb_searchParams = []\<rparr>],
      nextTimerId = 3, navigations = [], serviceCalls = [''piz'', ''pizz'']\<rparr>"
  by code_simp

lemma trim_examples:
  "trim ''p'' = ''p''" "trim ''pi'' = ''pi''" "trim ''piz'' = ''piz''"
  by (simp_all add: trim_def is_white_space_def)

text \<open>Typing \<open>p\<close>, \<open>pi\<close>, \<open>piz\<close> into the mounted control, 100 time units apart.\<close>

lemma typing_piz_navigates_once:
  "navigations (run [InputChange ''p'', Elapse 100, InputChange ''pi'', Elapse 100,
                     InputChange ''piz'', Elapse 499] (mount [])) = [] \<and>
   navigations (run [InputChange ''p'', Elapse 100, InputChange ''pi'', Elapse 100,
                     InputChange ''piz'', Elapse 500] (mount [])) = [[(''search'', ''piz'')]]"
  by code_simp

subsection \<open>Input Controller\<close>

text \<open>
  Claim C9.  At mount the query is the first \<open>search\<close> parameter of the address when
  there is one, and the empty string otherwise; the list of suggestions is empty, nothing
  is loading, the panel is closed and no suggestion is highlighted.
\<close>

theorem mount_initial_state:
  "search (mount sp) = (case params_get ''search'' sp of Some v \<Rightarrow> v | None \<Rightarrow> []) \<and>
   suggestions (mount sp) = [] \<and> \<not> loading (mount sp) \<and> \<not> showSuggestions (mount sp) \<and>
   highlightedIndex (mount sp) = - 1"
  by (simp add: mount_def split: option.splits)

theorem mount_initial_state_witness:
  "search (mount [(''page'', ''3''), (''search'', ''piz'')]) = ''piz'' \<and>
   search (mount [(''page'', ''3'')]) = [] \<and>
   highlightedIndex (mount [(''page'', ''3'')]) = - 1"
  using mount_initial_state[of "[(''page'', ''3''), (''search'', ''piz'')]"]
        mount_initial_state[of "[(''page'', ''3'')]"]
  by (simp add: params_get_def)

text \<open>
  Claim C3, as the code has it.  After \<open>handleInputChange v\<close>, with the guard of the
  fetcher it calls, the query is \<open>v\<close>, no suggestion is highlighted, and the panel flag
  is true exactly when \<open>v\<close> has at least 3 code units and \<open>trim v\<close> is not empty;
  otherwise the flag is false and the list of suggestions is empty.
\<close>

theorem handleInputChange_effect:
  "search (handleInputChange v s) = v \<and>
   highlightedIndex (handleInputChange v s) = - 1 \<and>
   showSuggestions (handleInputChange v s) = (length v \<ge> 3 \<and> trim v \<noteq> []) \<and>
   (\<not> (length v \<ge> 3 \<and> trim v \<noteq> []) \<longrightarrow> suggestions (handleInputChange v s) = [])"
  by (auto simp: handleInputChange_def Let_def updateURL_ui fetchSuggestions_sync_def
                 fetch_guard_def clearTimeout_def split: option.splits)

theorem handleInputChange_effect_witness:
  "showSuggestions (handleInputChange ''piz'' (mount [])) \<and>
   search (handleInputChange ''piz'' (mount [])) = ''piz'' \<and>
   \<not> showSuggestions (handleInputChange ''p'' (mount [])) \<and>
   suggestions (handleInputChange ''p'' (mount [])) = []"
  using handleInputChange_effect[of "''piz''" "mount []"]
        handleInputChange_effect[of "''p''" "mount []"]
  by (simp add: trim_examples)

text \<open>The text \<open>pi\<close> has 2 code units, and the panel flag is false after it.\<close>

theorem handleInputChange_two_chars_counterexample:
  "length ''pi'' \<ge> 2 \<and> \<not> showSuggestions (handleInputChange ''pi'' (mount []))"
  by (simp add: handleInputChange_def Let_def updateURL_ui fetchSuggestions_sync_def
                fetch_guard_def mount_def)

text \<open>
  Claim C6.  \<open>handleSuggestionClick\<close> sets the query to the title of the suggestion,
  closes the panel, takes the timer that \<open>urlUpdateTimeoutRef\<close> refers to out of the
  table (so that no timer is left when every armed timer is the referenced one), and
  navigates within the handler, with no time passing, to the parameters of the address
  with \<open>search\<close> set to the title and \<open>page\<close> removed.
\<close>

theorem handleSuggestionClick_immediate:
  "search (handleSuggestionClick sg s) = title sg \<and>
   \<not> showSuggestions (handleSuggestionClick sg s) \<and>
   timers (handleSuggestionClick sg s) =
     filter (\<lambda>t. Some (tid t) \<noteq> urlUpdateTimeoutRef s) (timers s) \<and>
   (timers_referenced s \<longrightarrow> timers (handleSuggestionClick sg s) = []) \<and>
   now (handleSuggestionClick sg s) = now s \<and>
   navigations (handleSuggestionClick sg s) =
     navigations s @
       [params_delete ''page'' (params_set ''search'' (title sg) (searchParams s))] \<and>
   params_get ''search''
     (params_delete ''page'' (params_set ''search'' (title sg) (searchParams s)))
     = Some (title sg) \<and>
   params_get ''page''
     (params_delete ''page'' (params_set ''search'' (title sg) (searchParams s))) = None"
  by (cases "urlUpdateTimeoutRef s")
     (auto simp: handleSuggestionClick_def Let_def router_push_def clearTimeout_def
                 params_get_delete params_get_set_same timers_referenced_def list_all_iff
                 filter_empty_conv)

text \<open>Accepting \<open>Pizza Dough\<close> while the timer of the typed \<open>piz\<close> is armed: the timer
  is gone, and the one navigation is to \<open>search=Pizza Dough\<close>, without \<open>page\<close>.\<close>

theorem handleSuggestionClick_immediate_witness:
  "timers_referenced loaded \<and> timers loaded \<noteq> [] \<and>
   timers (handleSuggestionClick pizza_dough loaded) = [] \<and>
   search (handleSuggestionClick pizza_dough loaded) = ''Pizza Dough'' \<and>
   navigations (handleSuggestionClick pizza_dough loaded) = [[(''search'', ''Pizza Dough'')]] \<and>
   navigations (elapse 500 (handleSuggestionClick pizza_dough loaded))
     = [[(''search'', ''Pizza Dough'')]]"
proof -
  have ref: "timers_referenced loaded"
    unfolding loaded_def by (rule timers_referenced_reachable)
  have armed: "timers loaded \<noteq> []"
    by (simp add: loaded_state)
  from handleSuggestionClick_immediate[of pizza_dough loaded] ref
  have click: "timers (handleSuggestionClick pizza_dough loaded) = []"
    "search (handleSuggestionClick pizza_dough loaded) = ''Pizza Dough''"
    "navigations (handleSuggestionClick pizza_dough loaded) = [[(''search'', ''Pizza Dough'')]]"
    by (simp_all add: loaded_state pizza_dough_def params_delete_def)
  have later: "navigations (elapse 500 (handleSuggestionClick pizza_dough loaded))
     = [[(''search'', ''Pizza Dough'')]]"
    by (simp add: elapse_def Let_def click)
  from ref armed click later show ?thesis by simp
qed

subsection \<open>Suggestion Fetcher\<close>

text \<open>
  Claim C7.  When \<open>trim v\<close> is empty or \<open>v\<close> has fewer than 3 code units,
  \<open>fetchSuggestions\<close> calls no service, clears the list and closes the panel.
  Otherwise it calls the service once with \<open>v\<close>, and when the call has settled
  \<open>loading\<close> is false, on success and on failure; on failure the list is empty.  The
  function never settles to an error.  The last conjunct says the same of the part that
  runs when a call settles, in whatever state the control is by then.
\<close>

theorem fetchSuggestions_contract:
  "(trim v = [] \<or> length v < 3 \<longrightarrow>
      (\<exists>s'. fetchSuggestions getRecipeSuggestions v s = Inr s' \<and>
            serviceCalls s' = serviceCalls s \<and> suggestions s' = [] \<and> \<not> showSuggestions s')) \<and>
   (\<not> (trim v = [] \<or> length v < 3) \<longrightarrow>
      (\<exists>s'. fetchSuggestions getRecipeSuggestions v s = Inr s' \<and>
            serviceCalls s' = serviceCalls s @ [v] \<and> \<not> loading s' \<and>
            (case getRecipeSuggestions v of
               Inr results \<Rightarrow> suggestions s' = results \<and> showSuggestions s'
             | Inl e \<Rightarrow> suggestions s' = []))) \<and>
   (\<exists>s'. fetchSuggestions_settle outcome s = Inr s' \<and> \<not> loading s' \<and>
         (case outcome of
            Inr results \<Rightarrow> suggestions s' = results \<and> showSuggestions s'
          | Inl e \<Rightarrow> suggestions s' = []))"
  by (auto simp: fetchSuggestions_def fetchSuggestions_sync_def fetchSuggestions_settle_def
                 fetch_guard_def Let_def split: sum.splits)

text \<open>On the loaded state: \<open>pi\<close> is too short and calls nothing; \<open>piz\<close> against a
  failing service calls it once and ends with an empty list and \<open>loading\<close> false.\<close>

theorem fetchSuggestions_contract_witness:
  "length ''pi'' < 3 \<and>
   (\<exists>s'. fetchSuggestions (\<lambda>q. Inl ServiceError) ''pi'' loaded = Inr s' \<and>
         serviceCalls s' = [''piz''] \<and> suggestions s' = [] \<and> \<not> showSuggestions s') \<and>
   (\<exists>s'. fetchSuggestions (\<lambda>q. Inl ServiceError) ''piz'' loaded = Inr s' \<and>
         serviceCalls s' = [''piz'', ''piz''] \<and> \<not> loading s' \<and> suggestions s' = []) \<and>
   (\<exists>s'. fetchSuggestions (\<lambda>q. Inr [pizza_sauce]) ''piz'' loaded = Inr s' \<and>
         serviceCalls s' = [''piz'', ''piz''] \<and> \<not> loading s' \<and> suggestions s' = [pizza_sauce])"
proof -
  have calls: "serviceCalls loaded = [''piz'']"
    by (simp add: loaded_state)
  from fetchSuggestions_contract[of "''pi''" "\<lambda>q. Inl ServiceError" loaded "Inl ServiceError"]
  have short: "\<exists>s'. fetchSuggestions (\<lambda>q. Inl ServiceError) ''pi'' loaded = Inr s' \<and>
         serviceCalls s' = [''piz''] \<and> suggestions s' = [] \<and> \<not> showSuggestions s'"
    by (simp add: calls)
  from fetchSuggestions_contract[of "''piz''" "\<lambda>q. Inl ServiceError" loaded "Inl ServiceError"]
  have failing: "\<exists>s'. fetchSuggestions (\<lambda>q. Inl ServiceError) ''piz'' loaded = Inr s' \<and>
         serviceCalls s' = [''piz'', ''piz''] \<and> \<not> loading s' \<and> suggestions s' = []"
    by (simp add: calls trim_examples)
  from fetchSuggestions_contract[of "''piz''" "\<lambda>q. Inr [pizza_sauce]" loaded "Inl ServiceError"]
  have answering: "\<exists>s'. fetchSuggestions (\<lambda>q. Inr [pizza_sauce]) ''piz'' loaded = Inr s' \<and>
         serviceCalls s' = [''piz'', ''piz''] \<and> \<not> loading s' \<and> suggestions s' = [pizza_sauce]"
    by (auto simp: calls trim_examples)
  from short failing answering show ?thesis by simp
qed

subsection \<open>Navigation State Machine\<close>

text \<open>The index stays in range under every event but the settling of a fetch, so every
  state reached from mount without one has its index in \<open>[-1, N - 1]\<close>.\<close>

lemma index_in_range_handleInputChange: "index_in_range (handleInputChange v s)"
  by (auto simp: index_in_range_def handleInputChange_def Let_def updateURL_ui
                 fetchSuggestions_sync_def clearTimeout_def split: option.splits)

lemma index_in_range_resetSearch: "index_in_range (resetSearch s)"
  by (auto simp: index_in_range_def resetSearch_def Let_def router_push_def clearTimeout_def
           split: option.splits)

lemma index_in_range_KeyDown:
  "index_in_range s \<Longrightarrow> index_in_range (step (KeyDown key) s)"
  by (auto simp: index_in_range_def handleKeyDown_def handleSuggestionClick_ui updateURL_ui)

lemma index_in_range_step:
  "index_in_range s \<Longrightarrow> \<not> is_FetchSettled e \<Longrightarrow> index_in_range (step e s)"
proof (cases e)
  case (InputChange v)
  then show ?thesis by (simp add: index_in_range_handleInputChange)
next
  case (KeyDown key)
  assume "index_in_range s"
  then show ?thesis unfolding KeyDown by (rule index_in_range_KeyDown)
next
  case (RowClick i)
  assume "index_in_range s"
  then show ?thesis using RowClick by (simp add: index_in_range_def handleSuggestionClick_ui)
next
  case (RowMouseEnter i)
  assume "index_in_range s"
  then show ?thesis using RowMouseEnter by (auto simp: index_in_range_def row_rendered_def)
next
  case ClearClick
  assume "index_in_range s"
  then show ?thesis using ClearClick by (simp add: index_in_range_resetSearch)
next
  case PointerDownOutside
  assume "index_in_range s"
  then show ?thesis using PointerDownOutside by (simp add: index_in_range_def)
next
  case (FetchSettled outcome)
  assume "\<not> is_FetchSettled e"
  then show ?thesis using FetchSettled by simp
next
  case (Elapse d)
  assume "index_in_range s"
  then show ?thesis using Elapse by (simp add: index_in_range_def elapse_ui)
qed

lemma index_in_range_run:
  "index_in_range s \<Longrightarrow> list_all (\<lambda>e. \<not> is_FetchSettled e) es \<Longrightarrow>
   index_in_range (run es s)"
  unfolding run_def
  by (induction es arbitrary: s) (simp_all add: index_in_range_step)

lemma index_in_range_mount: "index_in_range (mount sp)"
  by (simp add: index_in_range_def mount_def)

lemma index_in_range_without_fetch:
  "list_all (\<lambda>e. \<not> is_FetchSettled e) es \<Longrightarrow> index_in_range (run es (mount sp))"
  by (rule index_in_range_run[OF index_in_range_mount])

text \<open>
  Claim C5.  While the panel is shown and the index is a state of the machine, that is
  in \<open>[-1, N - 1]\<close> for the list of length \<open>N\<close>: \<open>ArrowDown\<close> moves the index to
  \<open>min (index + 1) (N - 1)\<close> and changes nothing when \<open>N = 0\<close>; \<open>ArrowUp\<close> moves it to
  \<open>max (index - 1) (- 1)\<close>; so \<open>ArrowDown\<close> at \<open>N - 1\<close> and \<open>ArrowUp\<close> at \<open>-1\<close> change
  nothing.  Both keys call \<open>preventDefault\<close>.
\<close>

theorem arrow_key_transitions:
  assumes "showSuggestions s" and "index_in_range s"
  shows "handleKeyDown ''ArrowDown'' s =
           Inr (True, s\<lparr>highlightedIndex :=
                          min (highlightedIndex s + 1) (int (length (suggestions s)) - 1)\<rparr>) \<and>
         (length (suggestions s) = 0 \<longrightarrow> handleKeyDown ''ArrowDown'' s = Inr (True, s)) \<and>
         handleKeyDown ''ArrowUp'' s =
           Inr (True, s\<lparr>highlightedIndex := max (highlightedIndex s - 1) (- 1)\<rparr>) \<and>
         (highlightedIndex s = int (length (suggestions s)) - 1 \<longrightarrow>
            handleKeyDown ''ArrowDown'' s = Inr (True, s)) \<and>
         (highlightedIndex s = - 1 \<longrightarrow> handleKeyDown ''ArrowUp'' s = Inr (True, s))"
  using assms by (auto simp: handleKeyDown_def index_in_range_def min_def max_def)

lemma arrow_runs:
  "run [KeyDown ''ArrowDown'', KeyDown ''ArrowDown''] loaded = loaded\<lparr>highlightedIndex := 1\<rparr>"
  "run [InputChange ''xyz'', FetchSettled (Inr [])] (mount []) =
     \<lparr>search = ''xyz'', suggestions = [], loading = False, showSuggestions = True,
      highlightedIndex = - 1, searchTimeoutRef = None, urlUpdateTimeoutRef = Some 1,
      searchParams = [], now = 0,
      timers = [\<lparr>tid = 1, due = 500, cb_searchTerm = ''xyz'', cb_searchParams = []\<rparr>],
      nextTimerId = 2, navigations = [], serviceCalls = [''xyz'']\<rparr>"
  by code_simp+

text \<open>With two suggestions and none highlighted, \<open>ArrowDown\<close> highlights the first and
  \<open>ArrowUp\<close> changes nothing; on the second of the two, \<open>ArrowDown\<close> changes nothing
  and \<open>ArrowUp\<close> goes back to the first; with an empty list shown, \<open>ArrowDown\<close> changes
  nothing.\<close>

theorem arrow_key_transitions_witness:
  "showSuggestions loaded \<and> index_in_range loaded \<and>
   handleKeyDown ''ArrowDown'' loaded = Inr (True, loaded\<lparr>highlightedIndex := 0\<rparr>) \<and>
   handleKeyDown ''ArrowUp'' loaded = Inr (True, loaded) \<and>
   showSuggestions (run [KeyDown ''ArrowDown'', KeyDown ''ArrowDown''] loaded) \<and>
   index_in_range (run [KeyDown ''ArrowDown'', KeyDown ''ArrowDown''] loaded) \<and>
   highlightedIndex (run [KeyDown ''ArrowDown'', KeyDown ''ArrowDown''] loaded) = 1 \<and>
   handleKeyDown ''ArrowDown'' (run [KeyDown ''ArrowDown'', KeyDown ''ArrowDown''] loaded)
     = Inr (True, run [KeyDown ''ArrowDown'', KeyDown ''ArrowDown''] loaded) \<and>
   handleKeyDown ''ArrowUp'' (run [KeyDown ''ArrowDown'', KeyDown ''ArrowDown''] loaded)
     = Inr (True, loaded\<lparr>highlightedIndex := 0\<rparr>) \<and>
   showSuggestions (run [InputChange ''xyz'', FetchSettled (Inr [])] (mount [])) \<and>
   index_in_range (run [InputChange ''xyz'', FetchSettled (Inr [])] (mount [])) \<and>
   suggestions (run [InputChange ''xyz'', FetchSettled (Inr [])] (mount [])) = [] \<and>
   handleKeyDown ''ArrowDown'' (run [InputChange ''xyz'', FetchSettled (Inr [])] (mount []))
     = Inr (True, run [InputChange ''xyz'', FetchSettled (Inr [])] (mount []))"
proof -
  let ?last = "run [KeyDown ''ArrowDown'', KeyDown ''ArrowDown''] loaded"
  let ?none = "run [InputChange ''xyz'', FetchSettled (Inr [])] (mount [])"
  have first: "showSuggestions loaded" "index_in_range loaded"
    "highlightedIndex loaded = - 1" "length (suggestions loaded) = 2"
    by (simp_all add: loaded_state index_in_range_def)
  have last: "showSuggestions ?last" "index_in_range ?last"
    "highlightedIndex ?last = 1" "length (suggestions ?last) = 2"
    unfolding arrow_runs(1) by (simp_all add: loaded_state index_in_range_def)
  have none: "showSuggestions ?none" "index_in_range ?none"
    "highlightedIndex ?none = - 1" "suggestions ?none = []"
    by (simp_all add: arrow_runs(2) index_in_range_def)
  from arrow_key_transitions[OF first(1,2)] first(3,4)
  have a: "handleKeyDown ''ArrowDown'' loaded = Inr (True, loaded\<lparr>highlightedIndex := 0\<rparr>)"
    "handleKeyDown ''ArrowUp'' loaded = Inr (True, loaded)"
    by simp_all
  from arrow_key_transitions[OF last(1,2)] last(3,4)
  have b: "handleKeyDown ''ArrowDown'' ?last = Inr (True, ?last)"
    "handleKeyDown ''ArrowUp'' ?last = Inr (True, loaded\<lparr>highlightedIndex := 0\<rparr>)"
    by (simp_all add: arrow_runs(1))
  from arrow_key_transitions[OF none(1,2)] none(3,4)
  have c: "handleKeyDown ''ArrowDown'' ?none = Inr (True, ?none)"
    by simp
  from first(1,2) last(1,2,3) none(1,2,4) a b c show ?thesis by simp
qed

text \<open>
  Claim C10.  While the panel flag is false, \<open>handleKeyDown\<close> returns at once for every
  key: the state with its timers and its navigations is the one before, and
  \<open>preventDefault\<close> is not called.
\<close>

theorem handleKeyDown_closed_panel:
  assumes "\<not> showSuggestions s"
  shows "handleKeyDown key s = Inr (False, s) \<and> step (KeyDown key) s = s"
  using assms by (simp add: handleKeyDown_def)

theorem handleKeyDown_closed_panel_witness:
  "\<not> showSuggestions (mount [(''search'', ''piz'')]) \<and>
   handleKeyDown ''Enter'' (mount [(''search'', ''piz'')])
     = Inr (False, mount [(''search'', ''piz'')]) \<and>
   handleKeyDown ''Escape'' (mount [(''search'', ''piz'')])
     = Inr (False, mount [(''search'', ''piz'')]) \<and>
   navigations (step (KeyDown ''Enter'') (mount [(''search'', ''piz'')])) = [] \<and>
   timers (step (KeyDown ''Enter'') (mount [(''search'', ''piz'')])) = []"
  using handleKeyDown_closed_panel[of "mount [(''search'', ''piz'')]" "''Enter''"]
        handleKeyDown_closed_panel[of "mount [(''search'', ''piz'')]" "''Escape''"]
  by (simp add: mount_def)

text \<open>The handlers that replace the list themselves set the index to \<open>-1\<close>; the
  settling of a fetch replaces the list and does not touch the index.\<close>

lemma list_replacing_handlers_reset_index:
  "highlightedIndex (handleInputChange v s) = - 1"
  "highlightedIndex (resetSearch s) = - 1"
  by (auto simp: handleInputChange_def resetSearch_def Let_def updateURL_ui router_push_def
                 fetchSuggestions_sync_def clearTimeout_def split: option.splits)

lemma fetch_settled_keeps_index:
  "highlightedIndex (step (FetchSettled outcome) s) = highlightedIndex s"
  by (simp add: fetchSuggestions_settle_def split: sum.splits)

lemma fetch_settled_replaces_list:
  "suggestions (step (FetchSettled (Inr results)) s) = results"
  "suggestions (step (FetchSettled (Inl e)) s) = []"
  by (simp_all add: fetchSuggestions_settle_def)

text \<open>
  Claim C1.  The claim is that the index stays in \<open>[-1, N - 1]\<close> over every sequence of
  \<open>ArrowUp\<close>, \<open>ArrowDown\<close> and replacements of the list, being reset whenever the list
  is replaced.  The code breaks it in the run \<open>stale_trace\<close>: \<open>piz\<close> is typed and
  answered with two suggestions, \<open>pizz\<close> is typed, \<open>ArrowDown\<close> is pressed twice, and
  the answer for \<open>pizz\<close> arrives with one suggestion.  The state before the last event
  has its index in range; after it the index is still 1 on a list of length 1, out of
  range, and \<open>Enter\<close> then reads \<open>suggestions[1].title\<close> and throws.
\<close>

theorem stale_index_after_fetch:
  "index_in_range (run (butlast stale_trace) (mount [])) \<and>
   last stale_trace = FetchSettled (Inr [pizza_dough]) \<and>
   showSuggestions (run stale_trace (mount [])) \<and>
   highlightedIndex (run stale_trace (mount [])) = 1 \<and>
   length (suggestions (run stale_trace (mount []))) = 1 \<and>
   \<not> index_in_range (run stale_trace (mount [])) \<and>
   handleKeyDown ''Enter'' (run stale_trace (mount [])) = Inl TypeError"
proof -
  have before: "index_in_range (run (butlast stale_trace) (mount []))"
    by code_simp
  have event: "last stale_trace = FetchSettled (Inr [pizza_dough])"
    by (simp add: stale_trace_def)
  have after: "showSuggestions (run stale_trace (mount []))"
    "highlightedIndex (run stale_trace (mount [])) = 1"
    "length (suggestions (run stale_trace (mount []))) = 1"
    "\<not> index_in_range (run stale_trace (mount []))"
    "handleKeyDown ''Enter'' (run stale_trace (mount [])) = Inl TypeError"
    by (simp_all add: stale_state index_in_range_def handleKeyDown_def)
  from before event after show ?thesis by simp
qed

subsection \<open>Match Highlighter\<close>

lemma mark_parts_defined:
  "mark_parts searchTerm (map Some parts) = Inr (map (mark_part searchTerm) parts)"
  by (induction parts) simp_all

lemma mark_parts_undefined:
  "None \<in> set parts \<Longrightarrow> mark_parts searchTerm parts = Inl TypeError"
  by (induction searchTerm parts rule: mark_parts.induct) auto

lemma piece_text_marked: "map piece_text (map (mark_part searchTerm) parts) = parts"
  by (induction parts) (simp_all add: mark_part_def)

lemma plain_pieces_marked:
  "plain_pieces (map (mark_part searchTerm) parts) =
   filter (\<lambda>part. toLowerCase part \<noteq> toLowerCase searchTerm) parts"
  by (induction parts) (simp_all add: mark_part_def)

lemma highlightMatch_total: "\<exists>n. highlightMatch RegExp split text searchTerm = Inr n"
  by (simp add: highlightMatch_def split: sum.splits)

lemma highlightMatch_parts:
  assumes "searchTerm \<noteq> []" and "RegExp (''('' @ searchTerm @ '')'') ''gi'' = Inr re"
    and "split text re = map Some parts"
  shows "highlightMatch RegExp split text searchTerm =
         Inr (Fragment (map (mark_part searchTerm) parts))"
  using assms by (simp add: highlightMatch_def highlightMatch_try_def mark_parts_defined)

text \<open>
  Claim C8.  Whatever the engine: for the empty term \<open>highlightMatch\<close> returns the text;
  when the constructor refuses the pattern \<open>(term)\<close> it returns the text; it never
  returns an error.  When the pattern is accepted and the split gives the parts
  \<open>parts\<close>, the result is the fragment of these parts, each one as it is and in this
  order, and the children left unmarked are exactly the parts that differ from the term
  when both are in lower case.  When a part is \<open>undefined\<close> the result is the text.
\<close>

theorem highlightMatch_contract:
  "highlightMatch RegExp split text [] = Inr (Text text) \<and>
   (\<forall>e. RegExp (''('' @ searchTerm @ '')'') ''gi'' = Inl e \<longrightarrow>
        highlightMatch RegExp split text searchTerm = Inr (Text text)) \<and>
   (\<exists>n. highlightMatch RegExp split text searchTerm = Inr n) \<and>
   (\<forall>re parts. searchTerm \<noteq> [] \<and> RegExp (''('' @ searchTerm @ '')'') ''gi'' = Inr re \<and>
        split text re = map Some parts \<longrightarrow>
        highlightMatch RegExp split text searchTerm =
          Inr (Fragment (map (mark_part searchTerm) parts)) \<and>
        map piece_text (map (mark_part searchTerm) parts) = parts \<and>
        plain_pieces (map (mark_part searchTerm) parts) =
          filter (\<lambda>part. toLowerCase part \<noteq> toLowerCase searchTerm) parts) \<and>
   (\<forall>re. RegExp (''('' @ searchTerm @ '')'') ''gi'' = Inr re \<and>
        None \<in> set (split text re) \<longrightarrow>
        highlightMatch RegExp split text searchTerm = Inr (Text text))"
proof -
  have a: "highlightMatch RegExp split text [] = Inr (Text text)"
    by (simp add: highlightMatch_def)
  have b: "\<forall>e. RegExp (''('' @ searchTerm @ '')'') ''gi'' = Inl e \<longrightarrow>
        highlightMatch RegExp split text searchTerm = Inr (Text text)"
    by (auto simp: highlightMatch_def highlightMatch_try_def)
  have d: "\<forall>re parts. searchTerm \<noteq> [] \<and> RegExp (''('' @ searchTerm @ '')'') ''gi'' = Inr re \<and>
        split text re = map Some parts \<longrightarrow>
        highlightMatch RegExp split text searchTerm =
          Inr (Fragment (map (mark_part searchTerm) parts)) \<and>
        map piece_text (map (mark_part searchTerm) parts) = parts \<and>
        plain_pieces (map (mark_part searchTerm) parts) =
          filter (\<lambda>part. toLowerCase part \<noteq> toLowerCase searchTerm) parts"
    using highlightMatch_parts[of searchTerm RegExp _ split "text"]
    by (auto simp only: piece_text_marked plain_pieces_marked)
  have e: "\<forall>re. RegExp (''('' @ searchTerm @ '')'') ''gi'' = Inr re \<and>
        None \<in> set (split text re) \<longrightarrow>
        highlightMatch RegExp split text searchTerm = Inr (Text text)"
    by (auto simp: highlightMatch_def highlightMatch_try_def mark_parts_undefined)
  from a b d e highlightMatch_total[of RegExp split "text" searchTerm] show ?thesis
    by blast
qed

lemma literal_examples:
  "literal_RegExp ''(()'' ''gi'' = Inl SyntaxError"
  "literal_RegExp ''(piz)'' ''gi'' = Inr ''piz''"
  "literal_split ''Pizza Dough'' ''piz'' = map Some [[], ''Piz'', ''za Dough'']"
  "map (mark_part ''piz'') [[], ''Piz'', ''za Dough'']
     = [Plain [], Span ''Piz'', Plain ''za Dough'']"
  by code_simp+

text \<open>With the engine for literal patterns: the term \<open>(\<close> gives the pattern \<open>(()\<close>,
  which is refused, and the text \<open>a(b\<close> comes back; the term \<open>piz\<close> marks \<open>Piz\<close> in
  \<open>Pizza Dough\<close> and leaves \<open>za Dough\<close> plain.\<close>

theorem highlightMatch_contract_witness:
  "literal_RegExp ''(()'' ''gi'' = Inl SyntaxError \<and>
   highlightMatch literal_RegExp literal_split ''a(b'' ''('' = Inr (Text ''a(b'') \<and>
   literal_RegExp ''(piz)'' ''gi'' = Inr ''piz'' \<and>
   literal_split ''Pizza Dough'' ''piz'' = map Some [[], ''Piz'', ''za Dough''] \<and>
   highlightMatch literal_RegExp literal_split ''Pizza Dough'' ''piz''
     = Inr (Fragment [Plain [], Span ''Piz'', Plain ''za Dough''])"
proof -
  from highlightMatch_contract[of literal_RegExp literal_split "''a(b''" "''(''"]
  have 1: "highlightMatch literal_RegExp literal_split ''a(b'' ''('' = Inr (Text ''a(b'')"
    using literal_examples(1) by simp
  from highlightMatch_contract[of literal_RegExp literal_split "''Pizza Dough''" "''piz''"]
  have "highlightMatch literal_RegExp literal_split ''Pizza Dough'' ''piz''
     = Inr (Fragment (map (mark_part ''piz'') [[], ''Piz'', ''za Dough'']))"
    using literal_examples(2,3) by (simp del: map_map list.map)
  then have 2: "highlightMatch literal_RegExp literal_split ''Pizza Dough'' ''piz''
     = Inr (Fragment [Plain [], Span ''Piz'', Plain ''za Dough''])"
    by (simp only: literal_examples(4))
  from 1 2 literal_examples show ?thesis by simp
qed

end
